theory Spec2Isabelle
  imports Main
begin

section \<open>Data model (types.ts)\<close>

text \<open>
  The interfaces \<^verbatim>\<open>HistoricalRegime\<close> and \<^verbatim>\<open>HistoricalData\<close> of the source, as the map
  component reads its property. Strings are byte lists (UTF-8). Years are integers, as
  \<^verbatim>\<open>parseInt\<close> delivers them; \<^verbatim>\<open>NaN\<close> is modelled where the source tests for it
  (\<^verbatim>\<open>commitInput\<close>).
\<close>

record HistoricalRegime =
  name :: string
  color :: string
  isoCodes :: "string list"
  events :: "string list"

record HistoricalData =
  year :: int
  summary :: string
  regimes :: "HistoricalRegime list"

section \<open>The snapshot service (fetchHistoricalContext)\<close>

text \<open>
  The service holds what \<^verbatim>\<open>JSON.parse\<close> returned: the cast to \<^verbatim>\<open>HistoricalData\<close> is
  erased at run time and checks nothing, so the cache, the caller and the state of
  \<^verbatim>\<open>App\<close> hold whatever value the reply denotes. \<open>json\<close> is that value. An array
  carries, beside its elements, the named properties written to it (none as parsed).
  \<open>put\<close> writes a property of an object, \<open>get_prop\<close> reads a named property (\<open>None\<close> is
  \<^verbatim>\<open>undefined\<close>; of an array it reads the properties written to it, not its length or
  its elements), and \<open>set_prop\<close> is the assignment \<^verbatim>\<open>v.k = x\<close> of module code, which is
  strict: \<open>None\<close> is the \<^verbatim>\<open>TypeError\<close> it throws on \<^verbatim>\<open>null\<close> and on a primitive value.
  Numbers are the integers.
\<close>

datatype json =
    JNull
  | JBool bool
  | JNum int
  | JStr string
  | JArr "json list" "(string \<times> json) list"
  | JObj "(string \<times> json) list"

fun put :: "string \<Rightarrow> json \<Rightarrow> (string \<times> json) list \<Rightarrow> (string \<times> json) list" where
  "put k x [] = [(k, x)]"
| "put k x ((k', x') # ps) = (if k' = k then (k, x) # ps else (k', x') # put k x ps)"

definition is_object :: "json \<Rightarrow> bool" where
  "is_object v = (case v of JObj ps \<Rightarrow> True | JArr xs ps \<Rightarrow> True | _ \<Rightarrow> False)"

definition get_prop :: "string \<Rightarrow> json \<Rightarrow> json option" where
  "get_prop k v =
     (case v of JObj ps \<Rightarrow> map_of ps k | JArr xs ps \<Rightarrow> map_of ps k | _ \<Rightarrow> None)"

definition set_prop :: "string \<Rightarrow> json \<Rightarrow> json \<Rightarrow> json option" where
  "set_prop k x v =
     (case v of
        JObj ps \<Rightarrow> Some (JObj (put k x ps))
      | JArr xs ps \<Rightarrow> Some (JArr xs (put k x ps))
      | _ \<Rightarrow> None)"

text \<open>
  The module keeps one \<^verbatim>\<open>Map<number, HistoricalData>\<close>. What the generative service
  answers is not decided by the program, so each call takes the answer it would get as
  an argument: the promise of \<^verbatim>\<open>generateContent\<close> rejects, or it resolves with a
  response whose \<^verbatim>\<open>text\<close> is undefined or a string. \<^verbatim>\<open>JSON.parse\<close> is the parameter
  \<open>parse\<close>, \<open>None\<close> where it throws. \<open>requests\<close> logs the years \<^verbatim>\<open>generateContent\<close> was
  called for. \<open>unavailable_summary\<close> is the summary of the fallback snapshot, a Chinese
  sentence (the data of this period is not available, try another year), as UTF-8
  bytes.
\<close>

datatype api_outcome = Rejected | Replied "string option"

datatype exn = ApiError | NoDataReturned | SyntaxError | TypeError

record service =
  cache :: "int \<rightharpoonup> json"
  requests :: "int list"

definition unavailable_summary :: string where
  "unavailable_summary = map char_of
     [0xE8, 0xAF, 0xA5, 0xE6, 0x97, 0xB6, 0xE6, 0x9C, 0x9F, 0xE6, 0x95, 0xB0, 0xE6, 0x8D,
      0xAE, 0xE6, 0x9A, 0x82, 0xE4, 0xB8, 0x8D, 0xE5, 0x8F, 0xAF, 0xE7, 0x94, 0xA8, 0xEF,
      0xBC, 0x8C, 0xE8, 0xAF, 0xB7, 0xE5, 0xB0, 0x9D, 0xE8, 0xAF, 0x95, 0xE5, 0x85, 0xB6,
      0xE4, 0xBB, 0x96, 0xE5, 0xB9, 0xB4, 0xE4, 0xBB, 0xBD, 0xE3, 0x80, 0x82 :: nat]"

definition fallback :: "int \<Rightarrow> json" where
  "fallback y =
     JObj [(''year'', JNum y), (''summary'', JStr unavailable_summary), (''regimes'', JArr [] [])]"

text \<open>
  The synchronous prefix of the call: the cache test, and on a miss the request. The
  first component is the cached snapshot on a hit, \<open>None\<close> while the request is awaited.
\<close>

definition fetch_begin :: "int \<Rightarrow> service \<Rightarrow> json option \<times> service" where
  "fetch_begin y s =
     (case cache s y of
        Some d \<Rightarrow> (Some d, s)
      | None \<Rightarrow> (None, s\<lparr>requests := requests s @ [y]\<rparr>))"

text \<open>The body of the \<^verbatim>\<open>try\<close> block once the request has settled; \<open>Inl\<close> is a throw.\<close>

definition try_body ::
  "(string \<Rightarrow> json option) \<Rightarrow> int \<Rightarrow> api_outcome \<Rightarrow> service
     \<Rightarrow> (exn + json) \<times> service" where
  "try_body parse y outcome s =
     (case outcome of
        Rejected \<Rightarrow> (Inl ApiError, s)
      | Replied None \<Rightarrow> (Inl NoDataReturned, s)
      | Replied (Some txt) \<Rightarrow>
          if txt = [] then (Inl NoDataReturned, s)
          else (case parse txt of
                  None \<Rightarrow> (Inl SyntaxError, s)
                | Some data \<Rightarrow>
                    (case set_prop ''year'' (JNum y) data of
                       None \<Rightarrow> (Inl TypeError, s)
                     | Some data' \<Rightarrow>
                         (Inr data', s\<lparr>cache := (cache s)(y \<mapsto> data')\<rparr>))))"

text \<open>The \<^verbatim>\<open>catch\<close> clause turns every throw into the fallback snapshot.\<close>

definition fetch_settle ::
  "(string \<Rightarrow> json option) \<Rightarrow> int \<Rightarrow> api_outcome \<Rightarrow> service
     \<Rightarrow> json \<times> service" where
  "fetch_settle parse y outcome s =
     (case try_body parse y outcome s of
        (Inl e, s') \<Rightarrow> (fallback y, s')
      | (Inr d, s') \<Rightarrow> (d, s'))"

text \<open>One call run to its end with nothing interleaved.\<close>

definition fetchHistoricalContext ::
  "(string \<Rightarrow> json option) \<Rightarrow> api_outcome \<Rightarrow> int \<Rightarrow> service
     \<Rightarrow> json \<times> service" where
  "fetchHistoricalContext parse outcome y s =
     (case fetch_begin y s of
        (Some d, s') \<Rightarrow> (d, s')
      | (None, s') \<Rightarrow> fetch_settle parse y outcome s')"

section \<open>The application shell (App.tsx)\<close>

text \<open>
  The React state of \<^verbatim>\<open>App\<close>. The texts shown to the user (the error banner, the two
  alerts of the generator) are Chinese string constants in the source; here each is
  one constructor of \<open>message\<close>.
\<close>

datatype message = LoadFailed | RangeRejected | RecordingDenied

record app =
  currentYear :: int
  historicalData :: "json option"
  loading :: bool
  error :: "message option"
  selectedRegime :: "HistoricalRegime option"
  selectedAreaName :: "string option"

text \<open>
  \<^verbatim>\<open>loadData\<close> up to its \<^verbatim>\<open>await\<close>: the five state writes, in the source's order. The
  call of \<^verbatim>\<open>fetchHistoricalContext\<close> follows them.
\<close>

definition loadData_begin :: "int \<Rightarrow> app \<Rightarrow> app" where
  "loadData_begin y a =
     a\<lparr>loading := True, error := None, currentYear := y,
       selectedRegime := None, selectedAreaName := None\<rparr>"

text \<open>
  \<^verbatim>\<open>loadData\<close> after the \<^verbatim>\<open>await\<close>: \<open>Inr\<close> is the snapshot the promise resolved with,
  \<open>Inl\<close> a rejection (the \<^verbatim>\<open>catch\<close> clause); \<^verbatim>\<open>finally\<close> clears \<open>loading\<close>.
\<close>

definition loadData_settle :: "exn + json \<Rightarrow> app \<Rightarrow> app" where
  "loadData_settle r a =
     (case r of
        Inr d \<Rightarrow> a\<lparr>historicalData := Some d, loading := False\<rparr>
      | Inl e \<Rightarrow> a\<lparr>error := Some LoadFailed, loading := False\<rparr>)"

text \<open>One \<^verbatim>\<open>loadData\<close> run to its end with nothing interleaved.\<close>

definition loadData ::
  "(string \<Rightarrow> json option) \<Rightarrow> api_outcome \<Rightarrow> int \<Rightarrow> app \<times> service
     \<Rightarrow> app \<times> service" where
  "loadData parse outcome y w =
     (case w of (a, s) \<Rightarrow>
        let a1 = loadData_begin y a;
            (d, s') = fetchHistoricalContext parse outcome y s
        in (loadData_settle (Inr d) a1, s'))"

definition handleTimelineChange :: "int \<Rightarrow> app \<Rightarrow> app" where
  "handleTimelineChange y a = a\<lparr>currentYear := y\<rparr>"

definition handleTimelineCommit ::
  "(string \<Rightarrow> json option) \<Rightarrow> api_outcome \<Rightarrow> int \<Rightarrow> app \<times> service
     \<Rightarrow> app \<times> service" where
  "handleTimelineCommit parse outcome y w =
     (case w of (a, s) \<Rightarrow> loadData parse outcome y (a\<lparr>currentYear := y\<rparr>, s))"

definition handleRegimeClick :: "HistoricalRegime option \<times> string \<Rightarrow> app \<Rightarrow> app" where
  "handleRegimeClick sel a =
     a\<lparr>selectedRegime := fst sel, selectedAreaName := Some (snd sel)\<rparr>"

definition app_init :: app where
  "app_init = \<lparr>currentYear = 1000, historicalData = None, loading = False, error = None,
                selectedRegime = None, selectedAreaName = None\<rparr>"

definition service_init :: service where
  "service_init = \<lparr>cache = Map.empty, requests = []\<rparr>"

section \<open>The year input (Timeline)\<close>

text \<open>
  \<^verbatim>\<open>commitInput\<close> computes the value it hands to \<^verbatim>\<open>onChange\<close> and \<^verbatim>\<open>onCommit\<close>; the
  argument is \<open>None\<close> for \<^verbatim>\<open>NaN\<close>. \<open>timeline_commit\<close> is that value passed to the two
  handlers \<^verbatim>\<open>App\<close> installs.
\<close>

definition commitInput :: "int \<Rightarrow> int \<Rightarrow> int option \<Rightarrow> int" where
  "commitInput mn mx val =
     (let v0 = (case val of None \<Rightarrow> mn | Some v \<Rightarrow> v);
          v1 = (if v0 < mn then mn else v0);
          v2 = (if v1 > mx then mx else v1)
      in if v2 = 0 then 1 else v2)"

definition timeline_commit ::
  "(string \<Rightarrow> json option) \<Rightarrow> api_outcome \<Rightarrow> int option \<Rightarrow> app \<times> service
     \<Rightarrow> app \<times> service" where
  "timeline_commit parse outcome val w =
     (case w of (a, s) \<Rightarrow>
        let v = commitInput (- 2000) 2000 val
        in handleTimelineCommit parse outcome v (handleTimelineChange v a, s))"

section \<open>The map (Map.tsx)\<close>

record GeoJsonFeature =
  feature_id :: string
  feature_name :: string

text \<open>
  The component is modelled on a property of its declared type, \<^verbatim>\<open>HistoricalData | null\<close>.
  \<^verbatim>\<open>countryColorMap\<close>: the two nested \<^verbatim>\<open>forEach\<close> loops, each \<^verbatim>\<open>map.set\<close> an update;
  \<open>set_codes\<close> is the inner loop over one regime's codes.
\<close>

definition set_codes ::
  "HistoricalRegime \<Rightarrow> (string \<rightharpoonup> HistoricalRegime) \<Rightarrow> (string \<rightharpoonup> HistoricalRegime)" where
  "set_codes regime m = fold (\<lambda>iso m'. m'(iso \<mapsto> regime)) (isoCodes regime) m"

definition countryColorMap :: "HistoricalData option \<Rightarrow> (string \<rightharpoonup> HistoricalRegime)" where
  "countryColorMap h =
     (case h of
        None \<Rightarrow> Map.empty
      | Some d \<Rightarrow> fold set_codes (regimes d) Map.empty)"

definition fill :: "(string \<rightharpoonup> HistoricalRegime) \<Rightarrow> GeoJsonFeature \<Rightarrow> string" where
  "fill idx f = (case idx (feature_id f) of Some r \<Rightarrow> color r | None \<Rightarrow> ''#cbd5e1'')"

text \<open>
  A click lands on a country path (whose handler stops the propagation) or on the
  \<^verbatim>\<open>svg\<close> element behind the paths. The result is the pair handed to \<^verbatim>\<open>onRegimeClick\<close>.
\<close>

datatype click_target = CountryPath GeoJsonFeature | SvgBackground

definition on_click ::
  "(string \<rightharpoonup> HistoricalRegime) \<Rightarrow> click_target \<Rightarrow> HistoricalRegime option \<times> string" where
  "on_click idx target =
     (case target of
        CountryPath f \<Rightarrow> (idx (feature_id f), feature_name f)
      | SvgBackground \<Rightarrow> (None, ''Ocean''))"

text \<open>
  Whether \<^verbatim>\<open>InfoPanel\<close> draws the detail box: it draws nothing of it while loading or
  without data, and otherwise tests the selection (a string is truthy when not empty).
\<close>

definition detail_box_shown :: "app \<Rightarrow> bool" where
  "detail_box_shown a =
     (\<not> loading a \<and> historicalData a \<noteq> None \<and>
      (selectedRegime a \<noteq> None \<or> (selectedAreaName a \<noteq> None \<and> selectedAreaName a \<noteq> Some []))
      \<and> selectedAreaName a \<noteq> Some ''Ocean'')"

section \<open>Playback (VideoGenerator, handlePlay)\<close>

text \<open>
  \<^verbatim>\<open>handlePlay\<close> is an \<^verbatim>\<open>async\<close> function: it runs until an \<^verbatim>\<open>await\<close>, and goes on when
  the awaited promise has settled. Between the two anything else may run, another
  \<^verbatim>\<open>handlePlay\<close> included. Every started loop is therefore a task of its own, holding the
  variables of its closure (\<open>yearToLoad\<close>, and the \<open>endYear\<close> and \<open>step\<close> it was started
  with) and the \<^verbatim>\<open>await\<close> it is suspended at. \<open>isPlayingRef\<close> is the one ref all of them
  share. \<open>onYearChange_calls\<close> logs every call of \<^verbatim>\<open>onYearChange\<close> with the number of the
  loop that made it. \<^verbatim>\<open>onYearChange\<close> is \<^verbatim>\<open>loadData\<close>, whose promise never rejects, so the
  \<^verbatim>\<open>catch\<close> clause of the loop is never entered. The three numbers of a start are
  integers. The source holds them as doubles: its sum \<^verbatim>\<open>yearToLoad += step\<close> is the integer
  sum as long as the result is at most \<open>2 ^ 53\<close> in magnitude, which every concrete run
  below is far from and which the general lemma on uninterrupted runs assumes. \<^verbatim>\<open>NaN\<close>
  (an emptied input) is not modelled: as start or end year it makes both comparisons
  false, so that the loop makes no call; as step it lets the loop make its first call
  and end after it.
\<close>

datatype suspended = AwaitLoad | AwaitDelay | Finished

record loop_task =
  yearToLoad :: int
  endYear :: int
  step :: int
  pc :: suspended

record player =
  isPlayingRef :: bool
  isPlaying :: bool
  alerts :: "message list"
  onYearChange_calls :: "(nat \<times> int) list"
  loops :: "loop_task list"

definition player_init :: player where
  "player_init = \<lparr>isPlayingRef = False, isPlaying = False, alerts = [],
                   onYearChange_calls = [], loops = []\<rparr>"

text \<open>Leaving the loop: the \<^verbatim>\<open>finally\<close> block.\<close>

definition exit_loop :: "nat \<Rightarrow> loop_task \<Rightarrow> player \<Rightarrow> player" where
  "exit_loop i t p =
     p\<lparr>loops := (loops p)[i := t\<lparr>pc := Finished\<rparr>], isPlaying := False, isPlayingRef := False\<rparr>"

text \<open>
  The \<^verbatim>\<open>while\<close> test of loop \<open>i\<close>, whose variables are \<open>t\<close>: when it holds the loop calls
  \<^verbatim>\<open>onYearChange(yearToLoad)\<close> and is suspended at that \<^verbatim>\<open>await\<close>.
\<close>

definition loop_head :: "nat \<Rightarrow> loop_task \<Rightarrow> player \<Rightarrow> player" where
  "loop_head i t p =
     (if isPlayingRef p \<and> yearToLoad t \<le> endYear t
      then p\<lparr>onYearChange_calls := onYearChange_calls p @ [(i, yearToLoad t)],
             loops := (loops p)[i := t\<lparr>pc := AwaitLoad\<rparr>]\<rparr>
      else exit_loop i t p)"

definition handlePlay :: "int \<Rightarrow> int \<Rightarrow> int \<Rightarrow> player \<Rightarrow> player" where
  "handlePlay startYear endYear' step' p =
     (if isPlayingRef p then p\<lparr>isPlayingRef := False, isPlaying := False\<rparr>
      else
        let p1 = p\<lparr>isPlaying := True, isPlayingRef := True\<rparr>
        in if startYear > endYear'
           then p1\<lparr>alerts := alerts p1 @ [RangeRejected], isPlaying := False,
                   isPlayingRef := False\<rparr>
           else
             let t = \<lparr>yearToLoad = startYear, endYear = endYear', step = step', pc = AwaitLoad\<rparr>
             in loop_head (length (loops p1)) t (p1\<lparr>loops := loops p1 @ [t]\<rparr>))"

text \<open>The promise loop \<open>i\<close> awaits has resolved: the loop runs to its next \<^verbatim>\<open>await\<close>.\<close>

definition resume :: "nat \<Rightarrow> player \<Rightarrow> player" where
  "resume i p =
     (if i < length (loops p) then
        let t = loops p ! i in
        case pc t of
          AwaitLoad \<Rightarrow>
            if \<not> isPlayingRef p then exit_loop i t p
            else p\<lparr>loops := (loops p)[i := t\<lparr>pc := AwaitDelay\<rparr>]\<rparr>
        | AwaitDelay \<Rightarrow>
            if \<not> isPlayingRef p then exit_loop i t p
            else loop_head i (t\<lparr>yearToLoad := yearToLoad t + step t\<rparr>) p
        | Finished \<Rightarrow> p
      else p)"

text \<open>
  What happens to the generator: a click on the play button, with the three numbers
  the inputs hold at that moment, or the promise a loop awaits resolving.
\<close>

datatype play_event = Click int int int | Resume nat

fun play_step :: "play_event \<Rightarrow> player \<Rightarrow> player" where
  "play_step (Click s e st) p = handlePlay s e st p"
| "play_step (Resume i) p = resume i p"

definition run_player :: "play_event list \<Rightarrow> player \<Rightarrow> player" where
  "run_player evs p = fold play_step evs p"

section \<open>Recording (VideoGenerator, handleStartRecording and handleStopRecording)\<close>

text \<open>
  One recording: the \<^verbatim>\<open>MediaRecorder\<close> the ref holds with its \<^verbatim>\<open>state\<close>, the chunks
  (each the size of its blob), the \<^verbatim>\<open>stop\<close> events the recorder has queued and not yet
  delivered, the files downloaded so far (each the chunks it was built from) and how
  often the stream's tracks have been stopped. \<^verbatim>\<open>MediaRecorder.stop()\<close> sets the state
  to inactive at once and queues one \<^verbatim>\<open>stop\<close> event; the handler \<^verbatim>\<open>onstop\<close> runs when
  that event is delivered.
\<close>

datatype recorder_state = Inactive | Recording

record recorder =
  isRecording :: bool
  mediaRecorder :: "recorder_state option"
  recordedChunks :: "nat list"
  stop_events :: nat
  downloads :: "nat list list"
  tracks_stopped :: nat
  recorder_alerts :: "message list"

definition recorder_init :: recorder where
  "recorder_init = \<lparr>isRecording = False, mediaRecorder = None, recordedChunks = [],
                     stop_events = 0, downloads = [], tracks_stopped = 0, recorder_alerts = []\<rparr>"

text \<open>
  \<^verbatim>\<open>handleStartRecording\<close>: \<open>granted\<close> is false when its \<^verbatim>\<open>try\<close> block throws (the user
  refuses the capture).
\<close>

definition handleStartRecording :: "bool \<Rightarrow> recorder \<Rightarrow> recorder" where
  "handleStartRecording granted r =
     (if granted then r\<lparr>mediaRecorder := Some Recording, isRecording := True\<rparr>
      else r\<lparr>recorder_alerts := recorder_alerts r @ [RecordingDenied]\<rparr>)"

definition recorder_stop :: "recorder \<Rightarrow> recorder" where
  "recorder_stop r = r\<lparr>mediaRecorder := Some Inactive, stop_events := stop_events r + 1\<rparr>"

definition handleStopRecording :: "recorder \<Rightarrow> recorder" where
  "handleStopRecording r =
     (case mediaRecorder r of
        Some Recording \<Rightarrow> recorder_stop r
      | Some Inactive \<Rightarrow> r
      | None \<Rightarrow> r)"

text \<open>The \<^verbatim>\<open>onended\<close> handler of the video track (the browser's own stop-sharing button).\<close>

definition onended :: "recorder \<Rightarrow> recorder" where
  "onended r =
     (case mediaRecorder r of
        Some Recording \<Rightarrow> recorder_stop r
      | Some Inactive \<Rightarrow> r
      | None \<Rightarrow> r)"

definition ondataavailable :: "nat \<Rightarrow> recorder \<Rightarrow> recorder" where
  "ondataavailable n r =
     (if n > 0 then r\<lparr>recordedChunks := recordedChunks r @ [n]\<rparr> else r)"

definition onstop :: "recorder \<Rightarrow> recorder" where
  "onstop r =
     r\<lparr>downloads := downloads r @ [recordedChunks r], recordedChunks := [],
       isRecording := False, tracks_stopped := tracks_stopped r + 1\<rparr>"

datatype recorder_event = DataAvailable nat | StopClicked | SharingEnded | StopDelivered

fun recorder_step :: "recorder_event \<Rightarrow> recorder \<Rightarrow> recorder" where
  "recorder_step (DataAvailable n) r = ondataavailable n r"
| "recorder_step StopClicked r = handleStopRecording r"
| "recorder_step SharingEnded r = onended r"
| "recorder_step StopDelivered r =
     (if stop_events r > 0 then onstop (r\<lparr>stop_events := stop_events r - 1\<rparr>) else r)"

definition run_recorder :: "recorder_event list \<Rightarrow> recorder \<Rightarrow> recorder" where
  "run_recorder evs r = fold recorder_step evs r"

fun stop_request :: "recorder_event \<Rightarrow> bool" where
  "stop_request StopClicked = True"
| "stop_request SharingEnded = True"
| "stop_request (DataAvailable n) = False"
| "stop_request StopDelivered = False"

section \<open>Auxiliary definitions for the proofs\<close>

text \<open>
  Loop \<open>i\<close> is suspended at the \<^verbatim>\<open>await\<close> of \<^verbatim>\<open>onYearChange(y)\<close> and the shared ref is
  still set.
\<close>

definition playing_at :: "player \<Rightarrow> nat \<Rightarrow> int \<Rightarrow> int \<Rightarrow> int \<Rightarrow> bool" where
  "playing_at p i y e st \<longleftrightarrow>
     i < length (loops p) \<and> isPlayingRef p \<and>
     loops p ! i = \<lparr>yearToLoad = y, endYear = e, step = st, pc = AwaitLoad\<rparr>"

text \<open>
  The three stages of one recording that started in state \<open>r0\<close>: recording; stopped with
  the \<^verbatim>\<open>stop\<close> event still queued; finalized.
\<close>

definition session_inv :: "recorder \<Rightarrow> recorder \<Rightarrow> bool \<Rightarrow> bool" where
  "session_inv r0 r stopped \<longleftrightarrow>
     (if \<not> stopped
      then mediaRecorder r = Some Recording \<and> stop_events r = 0 \<and> isRecording r \<and>
           downloads r = downloads r0 \<and> tracks_stopped r = tracks_stopped r0
      else mediaRecorder r = Some Inactive \<and>
           (stop_events r = 1 \<and> isRecording r \<and>
              downloads r = downloads r0 \<and> tracks_stopped r = tracks_stopped r0
            \<or> stop_events r = 0 \<and> \<not> isRecording r \<and>
              (\<exists>chunks. downloads r = downloads r0 @ [chunks]) \<and>
              tracks_stopped r = tracks_stopped r0 + 1))"

text \<open>Concrete data for the instances below.\<close>

definition quoted :: "string \<Rightarrow> string" where
  "quoted t = CHR 0x22 # t @ [CHR 0x22]"

definition sample_reply :: string where
  "sample_reply =
     ''{'' @ quoted ''year'' @ '':999,'' @ quoted ''summary'' @ '':'' @ quoted ''s'' @ '',''
       @ quoted ''regimes'' @ '':[]}''"

definition sample_snapshot :: json where
  "sample_snapshot =
     JObj [(''year'', JNum 999), (''summary'', JStr ''s''), (''regimes'', JArr [] [])]"

definition sample_snapshot_1000 :: json where
  "sample_snapshot_1000 =
     JObj [(''year'', JNum 1000), (''summary'', JStr ''s''), (''regimes'', JArr [] [])]"

text \<open>
  \<open>sample_parse\<close> does what \<^verbatim>\<open>JSON.parse\<close> does on the texts used below: the full reply,
  the empty object, the empty array, \<^verbatim>\<open>null\<close>, and a text that is no JSON.
\<close>

definition sample_parse :: "string \<Rightarrow> json option" where
  "sample_parse txt =
     (if txt = sample_reply then Some sample_snapshot
      else if txt = ''{}'' then Some (JObj [])
      else if txt = ''[]'' then Some (JArr [] [])
      else if txt = ''null'' then Some JNull
      else None)"

definition franks :: HistoricalRegime where
  "franks = \<lparr>name = ''Franks'', color = ''#1f77b4'', isoCodes = [''FRA'', ''DEU''], events = []\<rparr>"

definition burgundy :: HistoricalRegime where
  "burgundy = \<lparr>name = ''Burgundy'', color = ''#d62728'', isoCodes = [''FRA''], events = []\<rparr>"

definition two_claimants :: HistoricalData where
  "two_claimants = \<lparr>year = 1000, summary = ''s'', regimes = [franks, burgundy]\<rparr>"

definition france :: GeoJsonFeature where
  "france = \<lparr>feature_id = ''FRA'', feature_name = ''France''\<rparr>"

definition iceland :: GeoJsonFeature where
  "iceland = \<lparr>feature_id = ''ISL'', feature_name = ''Iceland''\<rparr>"

section \<open>Properties of the snapshot service\<close>

lemma unavailable_summary_nonempty: "unavailable_summary \<noteq> []"
  by (simp add: unavailable_summary_def)

lemma map_of_put: "map_of (put k x ps) k = Some x"
  by (induction ps) auto

lemma set_prop_object:
  "is_object v \<Longrightarrow> \<exists>w. set_prop k x v = Some w \<and> get_prop k w = Some x"
  by (cases v) (simp_all add: is_object_def set_prop_def get_prop_def map_of_put)

lemma set_prop_no_object: "\<not> is_object v \<Longrightarrow> set_prop k x v = None"
  by (cases v) (simp_all add: is_object_def set_prop_def)

lemma fetch_hit: "cache s y = Some d \<Longrightarrow> fetchHistoricalContext parse outcome y s = (d, s)"
  by (simp add: fetchHistoricalContext_def fetch_begin_def)

lemma fetch_miss_success:
  assumes "cache s y = None" and "txt \<noteq> []" and "parse txt = Some v"
    and "set_prop ''year'' (JNum y) v = Some x"
  shows "fetchHistoricalContext parse (Replied (Some txt)) y s =
           (x, s\<lparr>requests := requests s @ [y], cache := (cache s)(y \<mapsto> x)\<rparr>)"
  using assms
  by (simp add: fetchHistoricalContext_def fetch_begin_def fetch_settle_def try_body_def)

lemma fetch_miss_failure:
  assumes "cache s y = None"
    and "outcome = Rejected \<or> outcome = Replied None \<or> outcome = Replied (Some [])
           \<or> (\<exists>txt. outcome = Replied (Some txt) \<and>
                 (parse txt = None \<or> (\<exists>v. parse txt = Some v \<and> \<not> is_object v)))"
  shows "fetchHistoricalContext parse outcome y s =
           (fallback y, s\<lparr>requests := requests s @ [y]\<rparr>)"
  using assms
  by (auto simp add: fetchHistoricalContext_def fetch_begin_def fetch_settle_def try_body_def
      set_prop_no_object)

lemma failure_is_a_throw:
  assumes "outcome = Rejected \<or> outcome = Replied None \<or> outcome = Replied (Some [])
           \<or> (\<exists>txt. outcome = Replied (Some txt) \<and>
                 (parse txt = None \<or> (\<exists>v. parse txt = Some v \<and> \<not> is_object v)))"
  shows "isl (fst (try_body parse y outcome s))"
  using assms by (auto simp add: try_body_def set_prop_no_object)

lemma fetch_miss_requests:
  "cache s y = None \<Longrightarrow>
     requests (snd (fetchHistoricalContext parse outcome y s)) = requests s @ [y]"
  by (auto simp add: fetchHistoricalContext_def fetch_begin_def fetch_settle_def try_body_def
      split: api_outcome.splits option.splits)

text \<open>
  Claim C1. A year that is in the cache is answered from the cache, in the synchronous
  prefix of the call: the call returns the cached snapshot and leaves the whole service
  state as it was, the request log included, whatever the service would have answered.
  Two calls in a row with a warm cache both return that snapshot. Starting from a cold
  cache, when the first call succeeds a second call returns the same snapshot and the
  service has been called for that year exactly once.
\<close>

theorem cached_year_is_memoized:
  "(cache s y = Some d \<longrightarrow>
      fetch_begin y s = (Some d, s) \<and> fetchHistoricalContext parse outcome y s = (d, s) \<and>
      fetchHistoricalContext parse outcome' y (snd (fetchHistoricalContext parse outcome y s))
        = (d, s)) \<and>
   (cache s y = None \<and> txt \<noteq> [] \<and> parse txt = Some v \<and> is_object v \<longrightarrow>
      (let (d1, s1) = fetchHistoricalContext parse (Replied (Some txt)) y s;
           (d2, s2) = fetchHistoricalContext parse outcome y s1
       in cache s1 y = Some d1 \<and> d2 = d1 \<and> s2 = s1 \<and> requests s2 = requests s @ [y]))"
proof (intro conjI impI)
  assume "cache s y = Some d"
  then show "fetch_begin y s = (Some d, s)"
    by (simp add: fetch_begin_def)
next
  assume "cache s y = Some d"
  then show "fetchHistoricalContext parse outcome y s = (d, s)"
    by (rule fetch_hit)
next
  assume "cache s y = Some d"
  then show "fetchHistoricalContext parse outcome' y
      (snd (fetchHistoricalContext parse outcome y s)) = (d, s)"
    by (simp add: fetch_hit)
next
  assume a: "cache s y = None \<and> txt \<noteq> [] \<and> parse txt = Some v \<and> is_object v"
  then obtain d1 where d1: "set_prop ''year'' (JNum y) v = Some d1"
    using set_prop_object by blast
  define s1 where "s1 = s\<lparr>requests := requests s @ [y], cache := (cache s)(y \<mapsto> d1)\<rparr>"
  have first: "fetchHistoricalContext parse (Replied (Some txt)) y s = (d1, s1)"
    using a d1 by (simp add: fetch_miss_success s1_def)
  have warm: "cache s1 y = Some d1"
    by (simp add: s1_def)
  have second: "fetchHistoricalContext parse outcome y s1 = (d1, s1)"
    using warm by (rule fetch_hit)
  have "requests s1 = requests s @ [y]"
    by (simp add: s1_def)
  with first second warm
  show "let (d1, s1) = fetchHistoricalContext parse (Replied (Some txt)) y s;
            (d2, s2) = fetchHistoricalContext parse outcome y s1
        in cache s1 y = Some d1 \<and> d2 = d1 \<and> s2 = s1 \<and> requests s2 = requests s @ [y]"
    by simp
qed

theorem cached_year_is_memoized_witness:
  "fetchHistoricalContext sample_parse Rejected 1000
      \<lparr>cache = [1000 \<mapsto> sample_snapshot_1000], requests = [1000]\<rparr>
     = (sample_snapshot_1000, \<lparr>cache = [1000 \<mapsto> sample_snapshot_1000], requests = [1000]\<rparr>) \<and>
   (let (d1, s1) = fetchHistoricalContext sample_parse (Replied (Some sample_reply)) 1000 service_init;
        (d2, s2) = fetchHistoricalContext sample_parse Rejected 1000 s1
    in cache s1 1000 = Some d1 \<and> d2 = d1 \<and> s2 = s1 \<and> requests s2 = [1000])"
proof -
  have reply: "sample_reply \<noteq> [] \<and> sample_parse sample_reply = Some sample_snapshot \<and>
      is_object sample_snapshot"
    by (simp add: sample_parse_def sample_reply_def sample_snapshot_def is_object_def)
  show ?thesis
    using cached_year_is_memoized [of "\<lparr>cache = [1000 \<mapsto> sample_snapshot_1000], requests = [1000]\<rparr>"
        1000 sample_snapshot_1000 sample_parse Rejected Rejected sample_reply sample_snapshot]
      cached_year_is_memoized [of service_init 1000 sample_snapshot_1000 sample_parse Rejected
        Rejected sample_reply sample_snapshot]
      reply
    by (simp add: service_init_def)
qed

text \<open>
  Claim C2, as the code has it. Take a year that is not cached. When the request fails
  (the promise rejects, the response has no text or an empty one, the text is no JSON,
  or it denotes \<^verbatim>\<open>null\<close> or a primitive value), the \<^verbatim>\<open>try\<close> block throws and the call
  still returns: the result is the fallback snapshot, with the requested year, a
  non-empty summary and an empty list of regimes. The cache is left as it was, so the
  year is still absent; the next call for the year calls the service again, and if that
  one succeeds its snapshot is returned and cached. A text that denotes an object or
  an array is a success whatever properties it has: the value is given the requested
  year, cached and returned, and nothing tests it for a summary or for regimes.
\<close>

theorem failure_gives_uncached_fallback:
  assumes "cache s y = None"
  shows
    "(outcome = Rejected \<or> outcome = Replied None \<or> outcome = Replied (Some [])
        \<or> (\<exists>txt. outcome = Replied (Some txt) \<and>
              (parse txt = None \<or> (\<exists>v. parse txt = Some v \<and> \<not> is_object v))) \<longrightarrow>
      (let (d, s') = fetchHistoricalContext parse outcome y s
       in isl (fst (try_body parse y outcome (snd (fetch_begin y s)))) \<and>
          d = fallback y \<and>
          get_prop ''year'' d = Some (JNum y) \<and>
          get_prop ''summary'' d = Some (JStr unavailable_summary) \<and>
          unavailable_summary \<noteq> [] \<and>
          get_prop ''regimes'' d = Some (JArr [] []) \<and>
          cache s' = cache s \<and> cache s' y = None \<and>
          requests s' = requests s @ [y] \<and>
          requests (snd (fetchHistoricalContext parse outcome' y s')) = requests s' @ [y] \<and>
          (txt' \<noteq> [] \<and> parse txt' = Some v' \<and> is_object v' \<longrightarrow>
             (\<exists>x. set_prop ''year'' (JNum y) v' = Some x \<and>
                  fst (fetchHistoricalContext parse (Replied (Some txt')) y s') = x \<and>
                  cache (snd (fetchHistoricalContext parse (Replied (Some txt')) y s')) y
                    = Some x)))) \<and>
     (txt \<noteq> [] \<and> parse txt = Some v \<and> is_object v \<longrightarrow>
        (\<exists>x. set_prop ''year'' (JNum y) v = Some x \<and> get_prop ''year'' x = Some (JNum y) \<and>
             fetchHistoricalContext parse (Replied (Some txt)) y s
               = (x, s\<lparr>requests := requests s @ [y], cache := (cache s)(y \<mapsto> x)\<rparr>)))"
proof (intro conjI impI)
  assume bad: "outcome = Rejected \<or> outcome = Replied None \<or> outcome = Replied (Some [])
        \<or> (\<exists>txt. outcome = Replied (Some txt) \<and>
              (parse txt = None \<or> (\<exists>v. parse txt = Some v \<and> \<not> is_object v)))"
  define s' where "s' = s\<lparr>requests := requests s @ [y]\<rparr>"
  have run: "fetchHistoricalContext parse outcome y s = (fallback y, s')"
    using assms bad by (simp add: fetch_miss_failure s'_def)
  have thrown: "isl (fst (try_body parse y outcome (snd (fetch_begin y s))))"
    using bad by (rule failure_is_a_throw)
  have cold: "cache s' y = None"
    using assms by (simp add: s'_def)
  have again: "requests (snd (fetchHistoricalContext parse outcome' y s')) = requests s' @ [y]"
    using cold by (rule fetch_miss_requests)
  have later: "txt' \<noteq> [] \<and> parse txt' = Some v' \<and> is_object v' \<longrightarrow>
      (\<exists>x. set_prop ''year'' (JNum y) v' = Some x \<and>
           fst (fetchHistoricalContext parse (Replied (Some txt')) y s') = x \<and>
           cache (snd (fetchHistoricalContext parse (Replied (Some txt')) y s')) y = Some x)"
  proof
    assume ok: "txt' \<noteq> [] \<and> parse txt' = Some v' \<and> is_object v'"
    then obtain x where x: "set_prop ''year'' (JNum y) v' = Some x"
      using set_prop_object by blast
    with ok cold show "\<exists>x. set_prop ''year'' (JNum y) v' = Some x \<and>
           fst (fetchHistoricalContext parse (Replied (Some txt')) y s') = x \<and>
           cache (snd (fetchHistoricalContext parse (Replied (Some txt')) y s')) y = Some x"
      by (simp add: fetch_miss_success)
  qed
  have shape: "get_prop ''year'' (fallback y) = Some (JNum y) \<and>
      get_prop ''summary'' (fallback y) = Some (JStr unavailable_summary) \<and>
      get_prop ''regimes'' (fallback y) = Some (JArr [] [])"
    by (simp add: fallback_def get_prop_def)
  show "let (d, s') = fetchHistoricalContext parse outcome y s
       in isl (fst (try_body parse y outcome (snd (fetch_begin y s)))) \<and>
          d = fallback y \<and>
          get_prop ''year'' d = Some (JNum y) \<and>
          get_prop ''summary'' d = Some (JStr unavailable_summary) \<and>
          unavailable_summary \<noteq> [] \<and>
          get_prop ''regimes'' d = Some (JArr [] []) \<and>
          cache s' = cache s \<and> cache s' y = None \<and>
          requests s' = requests s @ [y] \<and>
          requests (snd (fetchHistoricalContext parse outcome' y s')) = requests s' @ [y] \<and>
          (txt' \<noteq> [] \<and> parse txt' = Some v' \<and> is_object v' \<longrightarrow>
             (\<exists>x. set_prop ''year'' (JNum y) v' = Some x \<and>
                  fst (fetchHistoricalContext parse (Replied (Some txt')) y s') = x \<and>
                  cache (snd (fetchHistoricalContext parse (Replied (Some txt')) y s')) y
                    = Some x))"
    using run thrown cold again later shape unavailable_summary_nonempty
    by (simp add: s'_def)
next
  assume ok: "txt \<noteq> [] \<and> parse txt = Some v \<and> is_object v"
  then obtain x where x: "set_prop ''year'' (JNum y) v = Some x"
    and y: "get_prop ''year'' x = Some (JNum y)"
    using set_prop_object by blast
  with ok assms
  show "\<exists>x. set_prop ''year'' (JNum y) v = Some x \<and> get_prop ''year'' x = Some (JNum y) \<and>
             fetchHistoricalContext parse (Replied (Some txt)) y s
               = (x, s\<lparr>requests := requests s @ [y], cache := (cache s)(y \<mapsto> x)\<rparr>)"
    by (simp add: fetch_miss_success)
qed

theorem failure_gives_uncached_fallback_witness:
  "fetchHistoricalContext sample_parse (Replied (Some ''<html>'')) 1000 service_init
     = (fallback 1000, \<lparr>cache = Map.empty, requests = [1000]\<rparr>) \<and>
   fetchHistoricalContext sample_parse (Replied (Some ''null'')) 1000 service_init
     = (fallback 1000, \<lparr>cache = Map.empty, requests = [1000]\<rparr>) \<and>
   get_prop ''year'' (fallback 1000) = Some (JNum 1000) \<and>
   get_prop ''regimes'' (fallback 1000) = Some (JArr [] []) \<and>
   requests (snd (fetchHistoricalContext sample_parse Rejected 1000
      \<lparr>cache = Map.empty, requests = [1000]\<rparr>)) = [1000, 1000] \<and>
   fetchHistoricalContext sample_parse (Replied (Some sample_reply)) 1000
      \<lparr>cache = Map.empty, requests = [1000]\<rparr>
     = (sample_snapshot_1000,
        \<lparr>cache = [1000 \<mapsto> sample_snapshot_1000], requests = [1000, 1000]\<rparr>)"
proof -
  have cold: "cache service_init 1000 = None"
    by (simp add: service_init_def)
  have cold': "cache \<lparr>cache = Map.empty, requests = [1000]\<rparr> 1000 = None"
    by simp
  have html: "Replied (Some ''<html>'') = Rejected \<or> Replied (Some ''<html>'') = Replied None
      \<or> Replied (Some ''<html>'') = Replied (Some [])
      \<or> (\<exists>txt. Replied (Some ''<html>'') = Replied (Some txt) \<and>
            (sample_parse txt = None \<or> (\<exists>v. sample_parse txt = Some v \<and> \<not> is_object v)))"
    by (simp add: sample_parse_def sample_reply_def quoted_def)
  have null: "Replied (Some ''null'') = Rejected \<or> Replied (Some ''null'') = Replied None
      \<or> Replied (Some ''null'') = Replied (Some [])
      \<or> (\<exists>txt. Replied (Some ''null'') = Replied (Some txt) \<and>
            (sample_parse txt = None \<or> (\<exists>v. sample_parse txt = Some v \<and> \<not> is_object v)))"
    by (simp add: sample_parse_def sample_reply_def quoted_def is_object_def)
  have reply: "sample_reply \<noteq> [] \<and> sample_parse sample_reply = Some sample_snapshot \<and>
      is_object sample_snapshot"
    by (simp add: sample_parse_def sample_reply_def sample_snapshot_def is_object_def)
  have written: "set_prop ''year'' (JNum 1000) sample_snapshot = Some sample_snapshot_1000"
    by (simp add: set_prop_def sample_snapshot_def sample_snapshot_1000_def)
  have run_html: "fetchHistoricalContext sample_parse (Replied (Some ''<html>'')) 1000 service_init
     = (fallback 1000, \<lparr>cache = Map.empty, requests = [1000]\<rparr>)"
    using fetch_miss_failure [OF cold html] by (simp add: service_init_def)
  have run_null: "fetchHistoricalContext sample_parse (Replied (Some ''null'')) 1000 service_init
     = (fallback 1000, \<lparr>cache = Map.empty, requests = [1000]\<rparr>)"
    using fetch_miss_failure [OF cold null] by (simp add: service_init_def)
  note on_failure = conjunct1 [OF failure_gives_uncached_fallback [OF cold,
      of "Replied (Some ''<html>'')" sample_parse Rejected sample_reply sample_snapshot
        sample_reply sample_snapshot], THEN mp, OF html]
  have shape_and_retry: "get_prop ''year'' (fallback 1000) = Some (JNum 1000) \<and>
      get_prop ''regimes'' (fallback 1000) = Some (JArr [] []) \<and>
      requests (snd (fetchHistoricalContext sample_parse Rejected 1000
        \<lparr>cache = Map.empty, requests = [1000]\<rparr>)) = [1000, 1000]"
    using on_failure unfolding run_html by (simp add: service_init_def)
  note on_success = conjunct2 [OF failure_gives_uncached_fallback [OF cold',
      of Rejected sample_parse Rejected sample_reply sample_snapshot
        sample_reply sample_snapshot], THEN mp, OF reply]
  have later: "fetchHistoricalContext sample_parse (Replied (Some sample_reply)) 1000
      \<lparr>cache = Map.empty, requests = [1000]\<rparr>
     = (sample_snapshot_1000,
        \<lparr>cache = [1000 \<mapsto> sample_snapshot_1000], requests = [1000, 1000]\<rparr>)"
    using on_success written by auto
  show ?thesis
    using run_html run_null shape_and_retry later by simp
qed

text \<open>
  A reply without the required properties is no failure for the code. The text
  \<^verbatim>\<open>{}\<close> denotes the empty object: the call returns it with the year written to it, not
  the fallback; the value has no regimes at all; it is cached, and the next call
  returns it from the cache without calling the service again.
\<close>

theorem missing_fields_reply_counterexample:
  "fetchHistoricalContext sample_parse (Replied (Some ''{}'')) 1000 service_init
     = (JObj [(''year'', JNum 1000)],
        \<lparr>cache = [1000 \<mapsto> JObj [(''year'', JNum 1000)]], requests = [1000]\<rparr>) \<and>
   JObj [(''year'', JNum 1000)] \<noteq> fallback 1000 \<and>
   get_prop ''regimes'' (JObj [(''year'', JNum 1000)]) = None \<and>
   get_prop ''summary'' (JObj [(''year'', JNum 1000)]) = None \<and>
   fetchHistoricalContext sample_parse Rejected 1000
      \<lparr>cache = [1000 \<mapsto> JObj [(''year'', JNum 1000)]], requests = [1000]\<rparr>
     = (JObj [(''year'', JNum 1000)],
        \<lparr>cache = [1000 \<mapsto> JObj [(''year'', JNum 1000)]], requests = [1000]\<rparr>)"
  by (simp add: fetchHistoricalContext_def fetch_begin_def fetch_settle_def try_body_def
      sample_parse_def sample_reply_def quoted_def set_prop_def get_prop_def fallback_def
      service_init_def)

section \<open>Properties of the map\<close>

lemma fold_set_lookup:
  "fold (\<lambda>iso m'. m'(iso \<mapsto> r)) codes m c = (if c \<in> set codes then Some r else m c)"
  by (induction codes arbitrary: m) auto

lemma set_codes_lookup:
  "set_codes r m c = (if c \<in> set (isoCodes r) then Some r else m c)"
  by (simp add: set_codes_def fold_set_lookup)

lemma unclaimed_suffix:
  "\<forall>r \<in> set rs. c \<notin> set (isoCodes r) \<Longrightarrow> fold set_codes rs m c = m c"
  by (induction rs arbitrary: m) (simp_all add: set_codes_lookup)

text \<open>
  The owner of a code in the index is the last regime of the list that lists it; a code
  no regime lists is not in the index.
\<close>

lemma fold_set_codes_owner:
  "fold set_codes rs m c =
     (case filter (\<lambda>r. c \<in> set (isoCodes r)) rs of
        [] \<Rightarrow> m c
      | r # rs' \<Rightarrow> Some (last (r # rs')))"
proof (induction rs rule: rev_induct)
  case Nil
  then show ?case by simp
next
  case (snoc r rs)
  then show ?case
    by (simp add: set_codes_lookup split: list.splits)
qed

lemma countryColorMap_owner:
  "countryColorMap (Some d) c =
     (case filter (\<lambda>r. c \<in> set (isoCodes r)) (regimes d) of
        [] \<Rightarrow> None
      | r # rs' \<Rightarrow> Some (last (r # rs')))"
  by (simp add: countryColorMap_def fold_set_codes_owner)

text \<open>
  Claim C9. When two regimes of one snapshot list the same code, and no regime after
  the second of them lists it, the index maps the code to the second: the regime later
  in the list owns the code.
\<close>

theorem later_regime_owns_shared_code:
  assumes "regimes d = pre @ r1 # mid @ r2 # post"
    and "c \<in> set (isoCodes r1)" and "c \<in> set (isoCodes r2)"
    and "\<forall>r \<in> set post. c \<notin> set (isoCodes r)"
  shows "countryColorMap (Some d) c = Some r2"
proof -
  have "fold set_codes (regimes d) Map.empty c
          = fold set_codes post (set_codes r2 (fold set_codes (pre @ r1 # mid) Map.empty)) c"
    by (simp add: assms(1))
  also have "\<dots> = set_codes r2 (fold set_codes (pre @ r1 # mid) Map.empty) c"
    using assms(4) by (rule unclaimed_suffix)
  also have "\<dots> = Some r2"
    using assms(3) by (simp add: set_codes_lookup)
  finally show ?thesis
    by (simp add: countryColorMap_def)
qed

theorem later_regime_owns_shared_code_witness:
  "countryColorMap (Some two_claimants) ''FRA'' = Some burgundy \<and>
   ''FRA'' \<in> set (isoCodes franks) \<and> ''FRA'' \<in> set (isoCodes burgundy) \<and>
   regimes two_claimants = [franks, burgundy]"
proof -
  have shape: "regimes two_claimants = [] @ franks # [] @ burgundy # []"
    by (simp add: two_claimants_def)
  have c1: "''FRA'' \<in> set (isoCodes franks)" by (simp add: franks_def)
  have c2: "''FRA'' \<in> set (isoCodes burgundy)" by (simp add: burgundy_def)
  have rest: "\<forall>r \<in> set []. ''FRA'' \<notin> set (isoCodes r)" by simp
  from later_regime_owns_shared_code [OF shape c1 c2 rest] c1 c2 show ?thesis
    by (simp add: two_claimants_def)
qed

text \<open>
  Claim C7, as the code has it. A click on a country whose code is in the index hands
  the owning regime and the country's name to \<^verbatim>\<open>onRegimeClick\<close>; a click on a country
  whose code is not in the index hands over no regime and the country's name; a click
  on the background hands over no regime and the name \<^verbatim>\<open>"Ocean"\<close>, the one name for
  which the panel draws no detail box.
\<close>

theorem click_resolves_through_index:
  "(countryColorMap h (feature_id f) = Some r \<longrightarrow>
      on_click (countryColorMap h) (CountryPath f) = (Some r, feature_name f)) \<and>
   (countryColorMap h (feature_id f) = None \<longrightarrow>
      on_click (countryColorMap h) (CountryPath f) = (None, feature_name f)) \<and>
   on_click (countryColorMap h) SvgBackground = (None, ''Ocean'') \<and>
   \<not> detail_box_shown (handleRegimeClick (on_click (countryColorMap h) SvgBackground) a)"
  by (simp add: on_click_def detail_box_shown_def handleRegimeClick_def)

theorem click_resolves_through_index_witness:
  "on_click (countryColorMap (Some two_claimants)) (CountryPath france) = (Some burgundy, ''France'') \<and>
   on_click (countryColorMap (Some two_claimants)) (CountryPath iceland) = (None, ''Iceland'') \<and>
   on_click (countryColorMap (Some two_claimants)) SvgBackground = (None, ''Ocean'')"
proof -
  have fra: "countryColorMap (Some two_claimants) (feature_id france) = Some burgundy"
    by (simp add: countryColorMap_def two_claimants_def set_codes_lookup france_def
        franks_def burgundy_def)
  have isl: "countryColorMap (Some two_claimants) (feature_id iceland) = None"
    by (simp add: countryColorMap_def two_claimants_def set_codes_lookup iceland_def
        franks_def burgundy_def)
  from click_resolves_through_index [of "Some two_claimants" france burgundy]
    click_resolves_through_index [of "Some two_claimants" iceland burgundy] fra isl
  show ?thesis
    by (simp add: france_def iceland_def)
qed

text \<open>
  The name handed over for a background click is not \<^verbatim>\<open>"background"\<close>.
\<close>

theorem background_click_counterexample:
  "on_click (countryColorMap None) SvgBackground \<noteq> (None, ''background'')"
  by (simp add: on_click_def)

section \<open>Properties of loading a year\<close>

text \<open>
  \<^verbatim>\<open>loadData\<close> clears the selected regime and the selected area name before it awaits
  the snapshot, whatever was selected; settling the request does not touch them, so
  after a load that nothing interrupts both are still empty. The same holds for a year
  committed through the timeline, which goes through \<^verbatim>\<open>loadData\<close>.
\<close>

lemma load_clears_selection:
  "selectedRegime (loadData_begin y a) = None \<and>
   selectedAreaName (loadData_begin y a) = None \<and>
   currentYear (loadData_begin y a) = y \<and>
   selectedRegime (loadData_settle r (loadData_begin y a)) = None \<and>
   selectedAreaName (loadData_settle r (loadData_begin y a)) = None \<and>
   selectedRegime (fst (loadData parse outcome y (a, s))) = None \<and>
   selectedAreaName (fst (loadData parse outcome y (a, s))) = None \<and>
   selectedRegime (fst (handleTimelineCommit parse outcome y (a, s))) = None \<and>
   selectedAreaName (fst (handleTimelineCommit parse outcome y (a, s))) = None"
  by (simp add: loadData_begin_def loadData_settle_def loadData_def handleTimelineCommit_def
      Let_def split: sum.splits prod.splits)

lemma settle_keeps_selection:
  "selectedRegime (loadData_settle r a) = selectedRegime a \<and>
   selectedAreaName (loadData_settle r a) = selectedAreaName a"
  by (simp add: loadData_settle_def split: sum.splits)

text \<open>
  Claim C10, where the code departs from it. The year 1100 is committed while the map
  shows a snapshot in which Burgundy owns France. \<^verbatim>\<open>loadData\<close> clears the selection and
  awaits the fetch; it leaves \<open>historicalData\<close> as it is, so the map still draws the old
  snapshot and answers clicks from its index. A click on France during the fetch selects
  Burgundy. When the fetch settles, \<^verbatim>\<open>loadData\<close> stores the snapshot of 1100, which has
  no regimes, and does not look at the selection: the regime of the old snapshot stays
  selected beside the new one.
\<close>

theorem click_during_load_keeps_old_selection:
  "historicalData (loadData_begin 1100 a) = historicalData a \<and>
   selectedRegime (loadData_begin 1100 a) = None \<and>
   selectedAreaName (loadData_begin 1100 a) = None \<and>
   fetch_begin 1100 service_init = (None, \<lparr>cache = Map.empty, requests = [1100]\<rparr>) \<and>
   on_click (countryColorMap (Some two_claimants)) (CountryPath france)
     = (Some burgundy, ''France'') \<and>
   fetch_settle sample_parse 1100 (Replied (Some sample_reply))
      \<lparr>cache = Map.empty, requests = [1100]\<rparr>
     = (JObj [(''year'', JNum 1100), (''summary'', JStr ''s''), (''regimes'', JArr [] [])],
        \<lparr>cache = [1100 \<mapsto>
            JObj [(''year'', JNum 1100), (''summary'', JStr ''s''), (''regimes'', JArr [] [])]],
         requests = [1100]\<rparr>) \<and>
   loadData_settle
      (Inr (JObj [(''year'', JNum 1100), (''summary'', JStr ''s''), (''regimes'', JArr [] [])]))
      (handleRegimeClick (on_click (countryColorMap (Some two_claimants)) (CountryPath france))
         (loadData_begin 1100 a))
     = a\<lparr>currentYear := 1100, error := None, loading := False,
         historicalData :=
           Some (JObj [(''year'', JNum 1100), (''summary'', JStr ''s''), (''regimes'', JArr [] [])]),
         selectedRegime := Some burgundy, selectedAreaName := Some ''France''\<rparr>"
proof -
  have click: "on_click (countryColorMap (Some two_claimants)) (CountryPath france)
     = (Some burgundy, ''France'')"
    by (simp add: on_click_def countryColorMap_def two_claimants_def set_codes_lookup
        france_def franks_def burgundy_def)
  have settle: "fetch_settle sample_parse 1100 (Replied (Some sample_reply))
      \<lparr>cache = Map.empty, requests = [1100]\<rparr>
     = (JObj [(''year'', JNum 1100), (''summary'', JStr ''s''), (''regimes'', JArr [] [])],
        \<lparr>cache = [1100 \<mapsto>
            JObj [(''year'', JNum 1100), (''summary'', JStr ''s''), (''regimes'', JArr [] [])]],
         requests = [1100]\<rparr>)"
    by (simp add: fetch_settle_def try_body_def sample_parse_def sample_reply_def
        sample_snapshot_def set_prop_def)
  have start: "fetch_begin 1100 service_init = (None, \<lparr>cache = Map.empty, requests = [1100]\<rparr>)"
    by (simp add: fetch_begin_def service_init_def)
  show ?thesis
    unfolding click
    using settle start
    by (simp add: loadData_begin_def loadData_settle_def handleRegimeClick_def)
qed

section \<open>Properties of playback\<close>

lemma run_player_append: "run_player (xs @ ys) p = run_player ys (run_player xs p)"
  by (simp add: run_player_def)

lemma run_player_Cons: "run_player (x # xs) p = run_player xs (play_step x p)"
  by (simp add: run_player_def)

lemma resume_finished:
  "i < length (loops p) \<Longrightarrow> pc (loops p ! i) = Finished \<Longrightarrow> resume i p = p"
  by (simp add: resume_def Let_def)

lemma resume_finished_many:
  "i < length (loops p) \<Longrightarrow> pc (loops p ! i) = Finished
     \<Longrightarrow> run_player (replicate k (Resume i)) p = p"
  by (induction k) (simp_all add: run_player_def resume_finished)

lemma ten_resumes:
  "run_player (Click 1000 1200 50 # replicate 10 (Resume 0)) player_init =
     \<lparr>isPlayingRef = False, isPlaying = False, alerts = [],
      onYearChange_calls = [(0, 1000), (0, 1050), (0, 1100), (0, 1150), (0, 1200)],
      loops = [\<lparr>yearToLoad = 1250, endYear = 1200, step = 50, pc = Finished\<rparr>]\<rparr>"
  by (simp add: run_player_def handlePlay_def resume_def loop_head_def exit_loop_def
      player_init_def numeral_eq_Suc Let_def)

lemma rejected_start:
  "e < s \<Longrightarrow> \<not> isPlayingRef p \<Longrightarrow> \<not> isPlaying p \<Longrightarrow>
     handlePlay s e st p = p\<lparr>alerts := alerts p @ [RangeRejected]\<rparr>"
  by (simp add: handlePlay_def Let_def)

text \<open>
  Claim C3. Started from rest with 1000, 1200 and 50 and never interrupted, the loop
  calls \<^verbatim>\<open>onYearChange\<close> for 1000, 1050, 1100, 1150 and 1200, once each and in this
  order; it needs ten resumptions (one load and one delay per year) before it is over,
  and from the tenth on the player is at rest with both playing flags cleared. A start
  whose start year exceeds the end year shows the alert, calls nothing and leaves the
  state as it was.
\<close>

theorem playback_visits_years_in_order:
  "(10 \<le> m \<longrightarrow>
      run_player (Click 1000 1200 50 # replicate m (Resume 0)) player_init =
        \<lparr>isPlayingRef = False, isPlaying = False, alerts = [],
         onYearChange_calls = [(0, 1000), (0, 1050), (0, 1100), (0, 1150), (0, 1200)],
         loops = [\<lparr>yearToLoad = 1250, endYear = 1200, step = 50, pc = Finished\<rparr>]\<rparr>) \<and>
   (m < 10 \<longrightarrow>
      isPlayingRef (run_player (Click 1000 1200 50 # replicate m (Resume 0)) player_init)) \<and>
   (e < s \<and> \<not> isPlayingRef p \<and> \<not> isPlaying p \<longrightarrow>
      handlePlay s e st p = p\<lparr>alerts := alerts p @ [RangeRejected]\<rparr>)"
proof (intro conjI impI)
  assume "10 \<le> m"
  then obtain k where m: "m = 10 + k"
    using le_Suc_ex by blast
  have "Click 1000 1200 50 # replicate m (Resume 0)
          = (Click 1000 1200 50 # replicate 10 (Resume 0)) @ replicate k (Resume 0)"
    unfolding m replicate_add by simp
  then show "run_player (Click 1000 1200 50 # replicate m (Resume 0)) player_init =
        \<lparr>isPlayingRef = False, isPlaying = False, alerts = [],
         onYearChange_calls = [(0, 1000), (0, 1050), (0, 1100), (0, 1150), (0, 1200)],
         loops = [\<lparr>yearToLoad = 1250, endYear = 1200, step = 50, pc = Finished\<rparr>]\<rparr>"
    by (simp only: run_player_append ten_resumes) (simp add: resume_finished_many)
next
  assume "m < 10"
  then have "m \<in> {0, 1, 2, 3, 4, 5, 6, 7, 8, 9}" by auto
  then show "isPlayingRef (run_player (Click 1000 1200 50 # replicate m (Resume 0)) player_init)"
    by (auto simp add: run_player_def handlePlay_def resume_def loop_head_def exit_loop_def
      player_init_def numeral_eq_Suc Let_def)
next
  assume "e < s \<and> \<not> isPlayingRef p \<and> \<not> isPlaying p"
  then show "handlePlay s e st p = p\<lparr>alerts := alerts p @ [RangeRejected]\<rparr>"
    by (simp add: rejected_start)
qed

theorem playback_visits_years_in_order_witness:
  "run_player (Click 1000 1200 50 # replicate 10 (Resume 0)) player_init =
     \<lparr>isPlayingRef = False, isPlaying = False, alerts = [],
      onYearChange_calls = [(0, 1000), (0, 1050), (0, 1100), (0, 1150), (0, 1200)],
      loops = [\<lparr>yearToLoad = 1250, endYear = 1200, step = 50, pc = Finished\<rparr>]\<rparr> \<and>
   isPlayingRef (run_player (Click 1000 1200 50 # replicate 9 (Resume 0)) player_init) \<and>
   handlePlay 1200 1000 50 player_init =
     \<lparr>isPlayingRef = False, isPlaying = False, alerts = [RangeRejected],
      onYearChange_calls = [], loops = []\<rparr>"
  using playback_visits_years_in_order [of 10 1000 1200 player_init 50]
    playback_visits_years_in_order [of 9 1000 1200 player_init 50]
  by (simp add: player_init_def)

text \<open>
  The same for any range and any positive step within the integers a double holds
  exactly: an uninterrupted run calls \<^verbatim>\<open>onYearChange\<close> for the start year and every
  further multiple of the step up to the end year, and then is at rest.
\<close>

lemma iteration_continues:
  assumes "playing_at p i y e st" and "y + st \<le> e"
  shows "playing_at (resume i (resume i p)) i (y + st) e st"
    and "onYearChange_calls (resume i (resume i p)) = onYearChange_calls p @ [(i, y + st)]"
    and "alerts (resume i (resume i p)) = alerts p"
  using assms
  by (simp_all add: playing_at_def resume_def loop_head_def Let_def)

lemma iteration_ends:
  assumes "playing_at p i y e st" and "\<not> y + st \<le> e"
  shows "\<not> isPlayingRef (resume i (resume i p))"
    and "\<not> isPlaying (resume i (resume i p))"
    and "onYearChange_calls (resume i (resume i p)) = onYearChange_calls p"
    and "alerts (resume i (resume i p)) = alerts p"
    and "i < length (loops (resume i (resume i p)))"
    and "pc (loops (resume i (resume i p)) ! i) = Finished"
  using assms
  by (simp_all add: playing_at_def resume_def loop_head_def exit_loop_def Let_def)

lemma last_iteration:
  fixes d st :: int
  assumes "0 < st" and "0 \<le> d" and "nat (d div st) = 0"
  shows "d < st"
proof -
  have "0 \<le> d div st" using assms by (simp add: pos_imp_zdiv_nonneg_iff)
  with assms(3) have "d div st = 0" by simp
  then have "d = d mod st" by (metis add.left_neutral mult_zero_right mult_div_mod_eq)
  also have "\<dots> < st" using assms(1) by simp
  finally show ?thesis .
qed

lemma more_iterations:
  fixes d st :: int
  assumes "0 < st" and "0 \<le> d" and "nat (d div st) = Suc n"
  shows "st \<le> d" and "nat ((d - st) div st) = n"
proof -
  have q: "d div st = int n + 1" using assms(3) by linarith
  have "st * (d div st) \<le> d"
    using assms(1) by (metis mult_div_mod_eq le_add_same_cancel1 pos_mod_sign)
  moreover have "st \<le> st * (d div st)"
    using q assms(1) by (simp add: algebra_simps)
  ultimately show "st \<le> d" by simp
  have "(d - st) div st = d div st - 1"
  proof -
    have "d = (d - st) + 1 * st" by simp
    then have "d div st = (d - st) div st + 1"
      using assms(1) by (metis div_mult_self1 less_irrefl add.commute)
    then show ?thesis by simp
  qed
  then show "nat ((d - st) div st) = n" using q by simp
qed

lemma upt_shift: "[1..<Suc (Suc n)] = 1 # map Suc [1..<Suc n]"
  by (metis One_nat_def map_Suc_upt upt_conv_Cons zero_less_Suc Suc_less_eq)

lemma uninterrupted_loop:
  assumes "playing_at p i y e st" and "0 < st" and "y \<le> e" and "nat ((e - y) div st) = n"
  shows "let p' = run_player (replicate (2 * n + 2) (Resume i)) p
         in onYearChange_calls p' = onYearChange_calls p @ map (\<lambda>k. (i, y + int k * st)) [1..<Suc n]
            \<and> \<not> isPlayingRef p' \<and> \<not> isPlaying p' \<and> alerts p' = alerts p
            \<and> i < length (loops p') \<and> pc (loops p' ! i) = Finished"
  using assms
proof (induction n arbitrary: p y)
  case 0
  have "e - y < st"
    using last_iteration [of st "e - y"] 0(2,3,4) by simp
  then have "\<not> y + st \<le> e" by simp
  from iteration_ends [OF 0(1) this] show ?case
    by (simp add: run_player_def)
next
  case (Suc n)
  have "st \<le> e - y" and n: "nat ((e - y - st) div st) = n"
    using more_iterations [of st "e - y" n] Suc.prems(2,3,4) by simp_all
  then have le: "y + st \<le> e" by simp
  have n': "nat ((e - (y + st)) div st) = n"
    using n by (simp add: algebra_simps)
  let ?q = "resume i (resume i p)"
  note it = iteration_continues [OF Suc.prems(1) le]
  from Suc.IH [OF it(1) Suc.prems(2) le n']
  have ih: "let p' = run_player (replicate (2 * n + 2) (Resume i)) ?q
         in onYearChange_calls p' = onYearChange_calls ?q @ map (\<lambda>k. (i, y + st + int k * st)) [1..<Suc n]
            \<and> \<not> isPlayingRef p' \<and> \<not> isPlaying p' \<and> alerts p' = alerts ?q
            \<and> i < length (loops p') \<and> pc (loops p' ! i) = Finished" .
  have unfold: "run_player (replicate (2 * Suc n + 2) (Resume i)) p
                  = run_player (replicate (2 * n + 2) (Resume i)) ?q"
    by (simp add: run_player_def)
  have shift: "(i, y + st) # map (\<lambda>k. (i, y + st + int k * st)) [1..<Suc n]
                 = map (\<lambda>k. (i, y + int k * st)) [1..<Suc (Suc n)]"
    unfolding upt_shift by (simp add: algebra_simps comp_def)
  show ?case
    using ih it(2,3) shift unfolding unfold Let_def by simp
qed

lemma handlePlay_starts:
  assumes "\<not> isPlayingRef p" and "s \<le> e"
  shows "playing_at (handlePlay s e st p) (length (loops p)) s e st"
    and "onYearChange_calls (handlePlay s e st p) = onYearChange_calls p @ [(length (loops p), s)]"
    and "alerts (handlePlay s e st p) = alerts p"
  using assms by (simp_all add: handlePlay_def loop_head_def playing_at_def Let_def)

lemma uninterrupted_playback:
  assumes "\<not> isPlayingRef p" and "0 < st" and "s \<le> e" and "nat ((e - s) div st) = n"
    and "- (2 ^ 53) \<le> s" and "e + st \<le> 2 ^ 53"
  shows "let p' = run_player (Click s e st # replicate (2 * n + 2) (Resume (length (loops p)))) p
         in onYearChange_calls p' =
              onYearChange_calls p @ map (\<lambda>k. (length (loops p), s + int k * st)) [0..<Suc n]
            \<and> \<not> isPlayingRef p' \<and> \<not> isPlaying p' \<and> alerts p' = alerts p"
proof -
  let ?i = "length (loops p)"
  note st = handlePlay_starts [OF assms(1,3), of st]
  have first: "[0..<Suc n] = 0 # [1..<Suc n]"
    by (simp add: upt_conv_Cons)
  from uninterrupted_loop [OF st(1) assms(2,3,4)] st(2,3) show ?thesis
    unfolding first by (simp add: run_player_Cons Let_def)
qed

subsection \<open>Stopping\<close>

text \<open>
  A click while the ref is set only clears the two flags: it starts no loop and calls
  nothing. Once the ref is cleared, the loops that resume find it cleared and leave
  without a further call, as long as no click sets it again.
\<close>

lemma click_while_playing_stops:
  "isPlayingRef p \<Longrightarrow> handlePlay s e st p = p\<lparr>isPlayingRef := False, isPlaying := False\<rparr>"
  by (simp add: handlePlay_def)

lemma cancelled_resume:
  "\<not> isPlayingRef p \<Longrightarrow>
     \<not> isPlayingRef (resume i p) \<and> onYearChange_calls (resume i p) = onYearChange_calls p"
  by (simp add: resume_def exit_loop_def Let_def split: suspended.splits)

lemma cancelled_stays_silent:
  "\<not> isPlayingRef p \<Longrightarrow>
     \<not> isPlayingRef (run_player (map Resume js) p) \<and>
     onYearChange_calls (run_player (map Resume js) p) = onYearChange_calls p"
proof (induction js arbitrary: p)
  case Nil
  then show ?case by (simp add: run_player_def)
next
  case (Cons j js)
  from cancelled_resume [OF Cons.prems, of j]
  have "\<not> isPlayingRef (resume j p)" and same: "onYearChange_calls (resume j p) = onYearChange_calls p"
    by simp_all
  from Cons.IH [OF this(1)] same show ?case
    by (simp add: run_player_def)
qed

text \<open>
  Claim C4, where the code departs from it. The loop has called \<^verbatim>\<open>onYearChange(1050)\<close>
  and waits out its delay; the button is clicked twice within that delay, which stops
  and starts again. The second click sets the shared ref before the first loop has
  looked at it, so the first loop goes on and calls \<^verbatim>\<open>onYearChange(1100)\<close> although a
  stop was requested after its call for 1050.
\<close>

theorem restart_revives_cancelled_loop:
  "\<not> isPlayingRef (run_player
      [Click 1000 1200 50, Resume 0, Resume 0, Resume 0, Click 1000 1200 50] player_init) \<and>
   onYearChange_calls (run_player
      [Click 1000 1200 50, Resume 0, Resume 0, Resume 0, Click 1000 1200 50] player_init)
     = [(0, 1000), (0, 1050)] \<and>
   onYearChange_calls (run_player
      [Click 1000 1200 50, Resume 0, Resume 0, Resume 0, Click 1000 1200 50,
       Click 1000 1200 50, Resume 0] player_init)
     = [(0, 1000), (0, 1050), (1, 1000), (0, 1100)]"
  by (simp add: run_player_def handlePlay_def resume_def loop_head_def exit_loop_def
      player_init_def Let_def)

text \<open>
  Claim C8, where the code departs from it. Three clicks before the first load has
  come back: start, stop, start. The first loop is still suspended when the third click
  starts a second one, and it finds the ref set when it resumes: from then on two loops
  run side by side and each calls \<^verbatim>\<open>onYearChange\<close> for every year.
\<close>

theorem second_loop_runs_beside_first:
  "run_player [Click 1000 1200 50, Click 1000 1200 50, Click 1000 1200 50,
               Resume 0, Resume 1, Resume 0, Resume 1] player_init =
     \<lparr>isPlayingRef = True, isPlaying = True, alerts = [],
      onYearChange_calls = [(0, 1000), (1, 1000), (0, 1050), (1, 1050)],
      loops = [\<lparr>yearToLoad = 1050, endYear = 1200, step = 50, pc = AwaitLoad\<rparr>,
               \<lparr>yearToLoad = 1050, endYear = 1200, step = 50, pc = AwaitLoad\<rparr>]\<rparr>"
  by (simp add: run_player_def handlePlay_def resume_def loop_head_def exit_loop_def
      player_init_def Let_def)

subsection \<open>Year zero\<close>

text \<open>
  The timeline never commits zero: \<^verbatim>\<open>commitInput\<close> replaces it by one, whatever the
  bounds and the input.
\<close>

lemma commitInput_never_zero: "commitInput mn mx val \<noteq> 0"
  by (simp add: commitInput_def Let_def)

lemma commitInput_zero: "commitInput (- 2000) 2000 (Some 0) = 1"
  by (simp add: commitInput_def)

lemma timeline_never_commits_zero:
  "currentYear (fst (timeline_commit parse outcome val (a, s))) \<noteq> 0"
  by (simp add: timeline_commit_def handleTimelineCommit_def loadData_def loadData_begin_def
      loadData_settle_def Let_def commitInput_never_zero split: prod.splits)

text \<open>
  Claim C5, where the code departs from it. The playback loop hands \<open>yearToLoad\<close> to
  \<^verbatim>\<open>onYearChange\<close>, which is \<^verbatim>\<open>loadData\<close>, as it is: a run from -50 to 50 in steps of 50
  calls it for the year 0, and \<^verbatim>\<open>loadData\<close> makes 0 the current year and requests the
  snapshot of year 0.
\<close>

theorem playback_commits_year_zero:
  "onYearChange_calls (run_player [Click (- 50) 50 50, Resume 0, Resume 0] player_init)
     = [(0, - 50), (0, 0)] \<and>
   currentYear (fst (loadData parse outcome 0 (app_init, service_init))) = 0 \<and>
   requests (snd (loadData parse outcome 0 (app_init, service_init))) = [0]"
proof -
  have calls: "onYearChange_calls (run_player [Click (- 50) 50 50, Resume 0, Resume 0] player_init)
     = [(0, - 50), (0, 0)]"
    by (simp add: run_player_def handlePlay_def resume_def loop_head_def exit_loop_def
        player_init_def Let_def)
  have cold: "cache service_init 0 = None"
    by (simp add: service_init_def)
  have req: "requests (snd (fetchHistoricalContext parse outcome 0 service_init)) = [0]"
    using fetch_miss_requests [OF cold, of parse outcome] by (simp add: service_init_def)
  have "currentYear (fst (loadData parse outcome 0 (app_init, service_init))) = 0"
    by (simp add: loadData_def loadData_begin_def loadData_settle_def Let_def split: prod.splits)
  moreover have "requests (snd (loadData parse outcome 0 (app_init, service_init))) = [0]"
    using req by (simp add: loadData_def Let_def case_prod_beta)
  ultimately show ?thesis
    using calls by simp
qed

section \<open>Properties of recording\<close>

lemma session_inv_start:
  "stop_events r0 = 0 \<Longrightarrow> session_inv r0 (handleStartRecording True r0) False"
  by (simp add: session_inv_def handleStartRecording_def)

lemma session_inv_step:
  "session_inv r0 r stopped \<Longrightarrow>
     session_inv r0 (recorder_step ev r) (stopped \<or> stop_request ev)"
  by (cases ev; cases stopped)
    (auto simp add: session_inv_def handleStopRecording_def onended_def recorder_stop_def
      ondataavailable_def onstop_def)

lemma session_inv_run:
  "session_inv r0 r stopped \<Longrightarrow>
     session_inv r0 (run_recorder evs r) (stopped \<or> list_ex stop_request evs)"
proof (induction evs arbitrary: r stopped)
  case Nil
  then show ?case by (simp add: run_recorder_def)
next
  case (Cons ev evs)
  from Cons.IH [OF session_inv_step [OF Cons.prems, of ev]] show ?case
    by (simp add: run_recorder_def disj_assoc)
qed

text \<open>
  Claim C6. Take a recording that starts with no \<^verbatim>\<open>stop\<close> event pending, and any
  sequence of chunks arriving, clicks on the stop button, stop-sharing signals of the
  browser and deliveries of the recorder's \<^verbatim>\<open>stop\<close> event. As soon as a stop has been
  asked for, by the button or by the browser, and the queued event has been delivered,
  exactly one more file has been downloaded, the tracks have been stopped exactly once
  more, and the recorder is inactive. Before any stop nothing is downloaded, and at no
  point is there more than one file or one release. The handler of the browser's signal
  does what the button's handler does, and on an inactive recorder (or without one) the
  button's handler changes nothing.
\<close>

theorem one_artifact_per_recording:
  assumes "stop_events r0 = 0"
  shows "let r = run_recorder evs (handleStartRecording True r0)
         in (list_ex stop_request evs \<and> stop_events r = 0 \<longrightarrow>
               length (downloads r) = length (downloads r0) + 1 \<and>
               tracks_stopped r = tracks_stopped r0 + 1 \<and>
               \<not> isRecording r \<and> mediaRecorder r = Some Inactive) \<and>
            (\<not> list_ex stop_request evs \<longrightarrow>
               downloads r = downloads r0 \<and> tracks_stopped r = tracks_stopped r0 \<and>
               mediaRecorder r = Some Recording) \<and>
            length (downloads r) \<le> length (downloads r0) + 1 \<and>
            tracks_stopped r \<le> tracks_stopped r0 + 1 \<and>
            onended q = handleStopRecording q \<and>
            (mediaRecorder q \<noteq> Some Recording \<longrightarrow> handleStopRecording q = q)"
proof -
  from session_inv_run [OF session_inv_start [OF assms], of evs]
  have "session_inv r0 (run_recorder evs (handleStartRecording True r0)) (list_ex stop_request evs)"
    by simp
  moreover have "onended q = handleStopRecording q"
    by (simp add: onended_def handleStopRecording_def)
  moreover have "mediaRecorder q \<noteq> Some Recording \<longrightarrow> handleStopRecording q = q"
    by (simp add: handleStopRecording_def split: option.splits recorder_state.splits)
  ultimately show ?thesis
    by (auto simp add: session_inv_def Let_def split: if_splits)
qed

theorem one_artifact_per_recording_witness:
  "run_recorder [DataAvailable 5, StopClicked, SharingEnded, DataAvailable 7, StopDelivered,
                 StopClicked, StopDelivered] (handleStartRecording True recorder_init) =
     \<lparr>isRecording = False, mediaRecorder = Some Inactive, recordedChunks = [],
      stop_events = 0, downloads = [[5, 7]], tracks_stopped = 1, recorder_alerts = []\<rparr> \<and>
   run_recorder [DataAvailable 5, SharingEnded, StopDelivered]
      (handleStartRecording True recorder_init) =
     \<lparr>isRecording = False, mediaRecorder = Some Inactive, recordedChunks = [],
      stop_events = 0, downloads = [[5]], tracks_stopped = 1, recorder_alerts = []\<rparr> \<and>
   handleStopRecording recorder_init = recorder_init"
proof -
  have none_pending: "stop_events recorder_init = 0"
    by (simp add: recorder_init_def)
  from one_artifact_per_recording [OF none_pending,
      of "[DataAvailable 5, StopClicked, SharingEnded, DataAvailable 7, StopDelivered,
           StopClicked, StopDelivered]" recorder_init]
    one_artifact_per_recording [OF none_pending,
      of "[DataAvailable 5, SharingEnded, StopDelivered]" recorder_init]
  show ?thesis
    by (simp add: run_recorder_def recorder_init_def handleStartRecording_def
        handleStopRecording_def onended_def recorder_stop_def ondataavailable_def onstop_def)
qed

end
